theory Spec2Isabelle
  imports Complex_Main "HOL-Library.Stream"
begin

section \<open>The emotion lava lamp: numeric helpers\<close>

text \<open>
  The program computes on Python floats. The embedding idealises them as real numbers:
  every arithmetic operation is the exact one, so rounding, overflow and the special
  values of IEEE arithmetic are outside the model. Where Python raises on a float
  operation for a reason that does not depend on rounding (division or modulo by zero),
  the model returns the error as a value.

  The pseudo-random generators are modelled by one stream of reals: its elements are the
  results of the draws in the order in which the program asks for them. A draw of
  \<open>random.random()\<close> takes the head of the stream; the documented range of that call is
  the half-open interval from 0 to 1, and a theorem that depends on the range says so.
\<close>

datatype error = ZeroDivisionError | IndexError

type_synonym rng = "real stream"

definition clamp :: "real \<Rightarrow> real \<Rightarrow> real \<Rightarrow> real" where
  "clamp value low high = max low (min high value)"

definition lerp :: "real \<Rightarrow> real \<Rightarrow> real \<Rightarrow> real" where
  "lerp a b t = a + (b - a) * t"

text \<open>
  Python's \<open>x % w\<close> on floats: the result has the sign of the divisor, and a zero divisor
  raises. \<open>float_mod\<close> is the exact value for a non-zero divisor, \<open>py_mod\<close> adds the check.
  The program computes the rounding of that value to a double: for a positive divisor and
  a negative dividend of tiny magnitude the exact value lies just below the divisor and
  rounds to the divisor itself (\<open>(-1e-17) % 1.0\<close> is \<open>1.0\<close>). The exact value is strictly
  below the divisor, the computed one need not be, so no property below rests on that
  strict bound.
\<close>

definition float_mod :: "real \<Rightarrow> real \<Rightarrow> real" where
  "float_mod x w = x - w * of_int \<lfloor>x / w\<rfloor>"

definition py_mod :: "real \<Rightarrow> real \<Rightarrow> error + real" where
  "py_mod x w = (if w = 0 then Inl ZeroDivisionError else Inr (float_mod x w))"

text \<open>Python's \<open>int(x)\<close> on a float truncates toward zero.\<close>

definition py_int :: "real \<Rightarrow> int" where
  "py_int x = (if 0 \<le> x then \<lfloor>x\<rfloor> else \<lceil>x\<rceil>)"

text \<open>\<open>random.uniform(a, b)\<close> is \<open>a + (b - a) * random()\<close>.\<close>

definition uniform :: "real \<Rightarrow> real \<Rightarrow> rng \<Rightarrow> real \<times> rng" where
  "uniform a b g = (a + (b - a) * shd g, stl g)"

text \<open>
  \<open>gauss(mu, sigma)\<close> is \<open>mu + z * sigma\<close> for a standard normal deviate \<open>z\<close>; the
  deviate is taken from the stream as it is.
\<close>

definition gauss :: "real \<Rightarrow> real \<Rightarrow> rng \<Rightarrow> real \<times> rng" where
  "gauss mu sigma g = (mu + shd g * sigma, stl g)"

definition hsv_to_rgb :: "real \<Rightarrow> real \<Rightarrow> real \<Rightarrow> real \<times> real \<times> real" where
  "hsv_to_rgb h0 s v =
     (let h = float_mod h0 360;
          c = v * s;
          x = c * (1 - \<bar>float_mod (h / 60) 2 - 1\<bar>);
          m = v - c;
          (rp, gp, bp) =
            (if h < 60 then (c, x, 0)
             else if h < 120 then (x, c, 0)
             else if h < 180 then (0, c, x)
             else if h < 240 then (0, x, c)
             else if h < 300 then (x, 0, c)
             else (c, 0, x))
      in (rp + m, gp + m, bp + m))"

section \<open>Signal conditioning: TemporalFilter\<close>

type_synonym vad = "real \<times> real \<times> real"

record TemporalFilter =
  tau_v :: real
  tau_a :: real
  tau_d :: real
  max_step :: real
  state :: vad





section \<open>Volatility tracker: EmotionEnergyModel\<close>

record EmotionEnergyModel =
  decay_per_frame :: real
  energy :: real

definition EmotionEnergyModel_default :: EmotionEnergyModel where
  "EmotionEnergyModel_default = \<lparr>decay_per_frame = 0.995, energy = 0\<rparr>"

definition EmotionEnergyModel_update :: "EmotionEnergyModel \<Rightarrow> real list \<Rightarrow> vad \<Rightarrow> EmotionEnergyModel" where
  "EmotionEnergyModel_update m target smoothed =
     (let (s0, s1, s2) = smoothed;
          delta = sum_list (map (\<lambda>(t, s). \<bar>t - s\<bar>) (zip target [s0, s1, s2])) / 3;
          e1 = energy m + delta;
          e2 = e1 * decay_per_frame m
      in m\<lparr>energy := clamp e2 0 10\<rparr>)"

text \<open>The tracker after a sequence of calls, and the energies the calls returned.\<close>

fun energy_run :: "EmotionEnergyModel \<Rightarrow> (real list \<times> vad) list \<Rightarrow> real list" where
  "energy_run m [] = []"
| "energy_run m ((target, smoothed) # rest) =
     (let m' = EmotionEnergyModel_update m target smoothed
      in energy m' # energy_run m' rest)"

section \<open>Emotion to visual parameters: VisualMapping\<close>

record VisualParams =
  hsv_primary :: "real \<times> real \<times> real"
  hsv_secondary :: "real \<times> real \<times> real"
  rgb_primary :: "real \<times> real \<times> real"
  blob_count :: int
  blob_size_mean :: real
  surface_tension :: real
  viscosity :: real
  buoyancy :: real
  turbulence :: real
  threshold :: real
  gravity_x :: real

record VisualMapping =
  base_turbulence :: real
  arousal_gain :: real
  energy_gain :: real

definition VisualMapping_default :: VisualMapping where
  "VisualMapping_default = \<lparr>base_turbulence = 0.1, arousal_gain = 0.9, energy_gain = 0.4\<rparr>"

text \<open>
  \<open>VisualMapping.map\<close>. The hue jitter draws once from the generator, so the function
  takes the stream and returns the rest of it.
\<close>

definition VisualMapping_map :: "VisualMapping \<Rightarrow> vad \<Rightarrow> real \<Rightarrow> real \<Rightarrow> rng \<Rightarrow> VisualParams \<times> rng" where
  "VisualMapping_map mp vad en t g =
     (let (v, a, d) = vad;
          nv = (v + 1) / 2; na = (a + 1) / 2; nd = (d + 1) / 2;
          h = lerp 220 20 nv;
          s = 0.3 + 0.7 * na;
          val = 0.4 + 0.6 * na;
          (u, g') = uniform (-24) 24 g;
          hue_noise = u * (1 - nd);
          h2 = float_mod (h + hue_noise) 360;
          freq = 0.1 + na * 1.5;
          amp = 0.02 + en * 0.05
      in (\<lparr>hsv_primary = (h, s, val),
           hsv_secondary = (h2, s, val),
           rgb_primary = hsv_to_rgb h s val,
           blob_count = 3 + py_int (na * 10),
           blob_size_mean = lerp 0.14 0.05 na,
           surface_tension = lerp 0.2 1.0 nd,
           viscosity = lerp 1.0 0.2 nv,
           buoyancy = lerp (-0.3) 0.3 nv,
           turbulence = base_turbulence mp + na * arousal_gain mp + en * energy_gain mp,
           threshold = lerp 1.2 0.9 nd,
           gravity_x = sin (t * freq * (2 * pi)) * amp\<rparr>, g'))"

section \<open>Particle simulation: FluidSimulation\<close>

text \<open>
  A blob's position and velocity are two-element lists in the source, read and written
  at the indices 0 and 1 only; the model uses pairs. Blobs are values: the model assumes
  that the blob list holds distinct objects, as every list the simulation itself builds
  does.
\<close>

record Blob =
  position :: "real \<times> real"
  velocity :: "real \<times> real"
  radius :: real
  color :: "real \<times> real \<times> real"

record FluidSimulation =
  width :: real
  height :: real
  damping_base :: real
  blobs :: "Blob list"

definition FluidSimulation_default :: FluidSimulation where
  "FluidSimulation_default = \<lparr>width = 1, height = 1, damping_base = 0.995, blobs = []\<rparr>"

text \<open>\<open>random.random()\<close>: the next draw.\<close>

definition random :: "rng \<Rightarrow> real \<times> rng" where
  "random g = (shd g, stl g)"

text \<open>
  The loop of \<open>reset\<close> over \<open>range(params.blob_count)\<close>; the count of iterations is
  zero for a negative count. The arguments of the \<open>Blob\<close> constructor are evaluated
  from left to right, which fixes the order of the draws.
\<close>

fun reset_blobs :: "real \<Rightarrow> real \<Rightarrow> VisualParams \<Rightarrow> nat \<Rightarrow> rng \<Rightarrow> Blob list \<times> rng" where
  "reset_blobs w h params 0 g = ([], g)"
| "reset_blobs w h params (Suc n) g =
     (let (ux, g1) = random g;
          (uy, g2) = random g1;
          (vx, g3) = uniform (-0.05) 0.05 g2;
          (vy, g4) = uniform (-0.05) 0.05 g3;
          (gr, g5) = gauss (blob_size_mean params) 0.015 g4;
          b = \<lparr>position = (ux * w, uy * h), velocity = (vx, vy),
               radius = max 0.01 gr, color = rgb_primary params\<rparr>;
          (bs, g') = reset_blobs w h params n g5
      in (b # bs, g'))"

definition FluidSimulation_reset :: "FluidSimulation \<Rightarrow> VisualParams \<Rightarrow> rng \<Rightarrow> FluidSimulation \<times> rng" where
  "FluidSimulation_reset sim params g =
     (let (bs, g') = reset_blobs (width sim) (height sim) params (nat (blob_count params)) g
      in (sim\<lparr>blobs := bs\<rparr>, g'))"

definition curl_noise :: "real \<Rightarrow> real \<Rightarrow> real \<Rightarrow> real \<times> real" where
  "curl_noise x y t =
     (sin (3 * y + 1.7 * t) * 0.5 + sin (7 * y - 0.6 * t) * 0.5,
      cos (3 * x - 1.3 * t) * 0.5 + cos (5 * x + 0.8 * t) * 0.5)"

text \<open>The growth loop of \<open>step\<close>: \<open>while len(self.blobs) < params.blob_count\<close>.\<close>

function grow_blobs :: "real \<Rightarrow> real \<Rightarrow> VisualParams \<Rightarrow> Blob list \<Rightarrow> rng \<Rightarrow> Blob list \<times> rng" where
  "grow_blobs w h params bs g =
     (if int (length bs) < blob_count params then
        let (ux, g1) = random g;
            (uy, g2) = random g1;
            b = \<lparr>position = (ux * w, uy * h), velocity = (0, 0),
                 radius = blob_size_mean params, color = rgb_primary params\<rparr>
        in grow_blobs w h params (bs @ [b]) g2
      else (bs, g))"
  by pat_completeness auto
termination
  by (relation "measure (\<lambda>(w, h, params, bs, g). nat (blob_count params - int (length bs)))")
     (auto simp: random_def)

declare grow_blobs.simps [simp del]

text \<open>
  The slice \<open>xs[:k]\<close> for an integer \<open>k\<close>: the first \<open>k\<close> elements when \<open>k\<close> is not
  negative, and all but the last \<open>-k\<close> elements when it is.
\<close>

definition py_slice_to :: "'a list \<Rightarrow> int \<Rightarrow> 'a list" where
  "py_slice_to xs k = (if 0 \<le> k then take (nat k) xs else take (nat (int (length xs) + k)) xs)"

text \<open>The body of the integration loop of \<open>step\<close> for one blob.\<close>

definition integrate_blob :: "real \<Rightarrow> real \<Rightarrow> VisualParams \<Rightarrow> real \<Rightarrow> real \<Rightarrow> real \<Rightarrow> Blob \<Rightarrow> error + Blob" where
  "integrate_blob w h params damping dt t b =
     (let (cx, cy) = curl_noise (fst (position b)) (snd (position b)) t;
          vx1 = fst (velocity b) + (cx * turbulence params + gravity_x params) * dt;
          vy1 = snd (velocity b) + (cy * turbulence params + buoyancy params) * dt;
          vx2 = vx1 * damping;
          vy2 = vy1 * damping
      in case py_mod (fst (position b) + vx2 * dt) w of
           Inl e \<Rightarrow> Inl e
         | Inr px \<Rightarrow>
             Inr (b\<lparr>velocity := (vx2, vy2),
                    position := (px, clamp (snd (position b) + vy2 * dt) 0 h),
                    color := rgb_primary params\<rparr>))"

fun integrate_blobs :: "real \<Rightarrow> real \<Rightarrow> VisualParams \<Rightarrow> real \<Rightarrow> real \<Rightarrow> real \<Rightarrow> Blob list \<Rightarrow> error + Blob list" where
  "integrate_blobs w h params damping dt t [] = Inr []"
| "integrate_blobs w h params damping dt t (b # bs) =
     (case integrate_blob w h params damping dt t b of
        Inl e \<Rightarrow> Inl e
      | Inr b' \<Rightarrow>
          (case integrate_blobs w h params damping dt t bs of
             Inl e \<Rightarrow> Inl e
           | Inr bs' \<Rightarrow> Inr (b' # bs')))"

text \<open>
  The merge of blob \<open>b\<close> into blob \<open>a\<close>, and \<open>list.pop(j)\<close> for an index in range.
\<close>

definition merge_blobs :: "Blob \<Rightarrow> Blob \<Rightarrow> Blob" where
  "merge_blobs a b =
     (let area = radius a * radius a + radius b * radius b
      in a\<lparr>radius := sqrt area,
            velocity := ((fst (velocity a) + fst (velocity b)) * 0.5,
                         (snd (velocity a) + snd (velocity b)) * 0.5)\<rparr>)"

definition pop :: "nat \<Rightarrow> 'a list \<Rightarrow> 'a list" where
  "pop j xs = take j xs @ drop (Suc j) xs"

text \<open>
  The inner loop of the merge scan. The source enters it with \<open>j = i + 1\<close> and only
  increases \<open>j\<close>, so \<open>i < j\<close> throughout and both reads are in range. The draw is taken
  only when the distance test has passed, as \<open>and\<close> evaluates its right operand only then.
\<close>

function merge_inner :: "real \<Rightarrow> nat \<Rightarrow> nat \<Rightarrow> Blob list \<Rightarrow> rng \<Rightarrow> Blob list \<times> rng" where
  "merge_inner nd i j bs g =
     (if j < length bs then
        let a = bs ! i;
            b = bs ! j;
            dx = fst (position a) - fst (position b);
            dy = snd (position a) - snd (position b);
            dist2 = dx * dx + dy * dy;
            threshold = (radius a + radius b) * (1.5 - 0.5 * nd)
        in if dist2 < threshold * threshold then
             (if shd g < nd then merge_inner nd i j (pop j (bs[i := merge_blobs a b])) (stl g)
              else merge_inner nd i (j + 1) bs (stl g))
           else merge_inner nd i (j + 1) bs g
      else (bs, g))"
  by pat_completeness auto
termination
  by (relation "measure (\<lambda>(nd, i, j, bs, g). length bs - j)") (auto simp: pop_def)

declare merge_inner.simps [simp del]

function merge_outer :: "real \<Rightarrow> nat \<Rightarrow> Blob list \<Rightarrow> rng \<Rightarrow> Blob list \<times> rng" where
  "merge_outer nd i bs g =
     (if i < length bs then
        let (bs', g') = merge_inner nd i (i + 1) bs g
        in merge_outer nd (i + 1) bs' g'
      else (bs, g))"
  by pat_completeness auto
termination
proof (relation "measure (\<lambda>(nd, i, bs, g). length bs - i)")
  show "wf (measure (\<lambda>(nd, i, bs, g). length bs - i))" by simp
next
  fix nd :: real and i :: nat and bs :: "Blob list" and g :: rng and x bs' g'
  assume i: "i < length bs" and x: "x = merge_inner nd i (i + 1) bs g" and p: "(bs', g') = x"
  have lp: "length (pop k cs) \<le> length cs" for k and cs :: "Blob list"
    by (simp add: pop_def)
  have shrink: "length (fst (merge_inner nd' i' j' cs g')) \<le> length cs" for nd' i' j' cs g'
  proof (induction nd' i' j' cs g' rule: merge_inner.induct)
    case (1 nd i j bs g)
    show ?case
    proof (cases "j < length bs")
      case False
      then show ?thesis by (simp add: merge_inner.simps)
    next
      case True
      note IH = "1.IH" [OF True refl refl refl refl refl refl]
      show ?thesis
        using True IH lp [of j "bs[i := merge_blobs (bs ! i) (bs ! j)]"]
        by (subst merge_inner.simps) (auto simp: Let_def simp del: merge_inner.simps)
    qed
  qed
  have "length bs' \<le> length bs"
    using shrink [of nd i "i + 1" bs g] x p by (metis fst_conv)
  then show "((nd, i + 1, bs', g'), nd, i, bs, g) \<in> measure (\<lambda>(nd, i, bs, g). length bs - i)"
    using i by simp
qed

declare merge_outer.simps [simp del]

text \<open>
  The split loop. It visits the children it appends, and it need not stop: where a blob
  and all its descendants stay above the size bound and every draw lets them split, the
  loop runs for ever, hence the result is optional. The child's x-coordinate is a modulo
  by the width and raises for a zero width.
\<close>

partial_function (option) split_loop ::
  "real \<Rightarrow> real \<Rightarrow> real \<Rightarrow> VisualParams \<Rightarrow> nat \<Rightarrow> Blob list \<Rightarrow> rng \<Rightarrow> (error + Blob list \<times> rng) option" where
  "split_loop w h na params idx bs g =
     (if idx < length bs then
        let b = bs ! idx
        in if radius b > blob_size_mean params * 1.8 then
             (if shd g < na then
                let r = radius b / sqrt 2
                in case py_mod (fst (position b) + 0.03) w of
                     Inl e \<Rightarrow> Some (Inl e)
                   | Inr cx \<Rightarrow>
                       let child = \<lparr>position = (cx, clamp (snd (position b) + 0.03) 0 h),
                                    velocity = (- fst (velocity b), snd (velocity b)),
                                    radius = r, color = color b\<rparr>
                       in split_loop w h na params (idx + 1) (bs[idx := b\<lparr>radius := r\<rparr>] @ [child]) (stl g)
              else split_loop w h na params (idx + 1) bs (stl g))
           else split_loop w h na params (idx + 1) bs g
      else Some (Inr (bs, g)))"

definition FluidSimulation_merge_and_split ::
  "FluidSimulation \<Rightarrow> real \<Rightarrow> real \<Rightarrow> VisualParams \<Rightarrow> rng \<Rightarrow> (error + FluidSimulation \<times> rng) option" where
  "FluidSimulation_merge_and_split sim nd na params g =
     (let (bs1, g1) = merge_outer nd 0 (blobs sim) g
      in case split_loop (width sim) (height sim) na params 0 bs1 g1 of
           None \<Rightarrow> None
         | Some (Inl e) \<Rightarrow> Some (Inl e)
         | Some (Inr (bs2, g2)) \<Rightarrow> Some (Inr (sim\<lparr>blobs := bs2\<rparr>, g2)))"

text \<open>
  The first part of \<open>step\<close>, up to the integration loop: the reset of an empty set, the
  growth loop and the truncation.
\<close>

definition reconcile_count :: "FluidSimulation \<Rightarrow> VisualParams \<Rightarrow> rng \<Rightarrow> FluidSimulation \<times> rng" where
  "reconcile_count sim params g =
     (let (sim1, g1) = (if blobs sim = [] then FluidSimulation_reset sim params g else (sim, g));
          (bs2, g2) = grow_blobs (width sim1) (height sim1) params (blobs sim1) g1;
          bs3 = (if int (length bs2) > blob_count params then py_slice_to bs2 (blob_count params) else bs2)
      in (sim1\<lparr>blobs := bs3\<rparr>, g2))"

definition FluidSimulation_step ::
  "FluidSimulation \<Rightarrow> VisualParams \<Rightarrow> real \<Rightarrow> real \<Rightarrow> real \<Rightarrow> real \<Rightarrow> rng \<Rightarrow> (error + FluidSimulation \<times> rng) option" where
  "FluidSimulation_step sim params nd na dt t g =
     (let (sim3, g2) = reconcile_count sim params g;
          damping = damping_base sim3 - (1 - viscosity params) * 0.02
      in case integrate_blobs (width sim3) (height sim3) params damping dt t (blobs sim3) of
           Inl e \<Rightarrow> Some (Inl e)
         | Inr bs4 \<Rightarrow> FluidSimulation_merge_and_split (sim3\<lparr>blobs := bs4\<rparr>) nd na params g2)"

section \<open>The engine: EmotionLavaLampEngine\<close>

text \<open>
  The source of samples is an external callable, so \<open>tick\<close> takes what the call returned:
  \<open>None\<close> for no sample, otherwise the tuple, of whatever length, as a list. The stored
  target is \<open>tuple(clamp(v, -1.0, 1.0) for v in sample)\<close>, of the sample's length.
\<close>

record EmotionLavaLampEngine =
  filter_state :: TemporalFilter
  energy_model :: EmotionEnergyModel
  mapper :: VisualMapping
  sim :: FluidSimulation
  target_vad :: "real list"
  time_s :: real





section \<open>A measure for the split loop\<close>

text \<open>
  The number of times a radius can still be divided by the square root of 2 before it is
  at most the bound \<open>thr\<close>. It is used only to show that the split loop ends when the
  bound is positive.
\<close>

definition split_rank :: "real \<Rightarrow> real \<Rightarrow> nat" where
  "split_rank thr r = (LEAST n. r \<le> thr * sqrt 2 ^ n)"

definition split_measure :: "real \<Rightarrow> nat \<Rightarrow> Blob list \<Rightarrow> nat" where
  "split_measure thr idx bs = sum_list (map (\<lambda>b. Suc (split_rank thr (radius b))) (drop idx bs))"

section \<open>Repeated calls\<close>



section \<open>Properties of the filter, the tracker and the mapper\<close>

lemma clamp_bounds: "low \<le> high \<Longrightarrow> low \<le> clamp v low high \<and> clamp v low high \<le> high"
  by (simp add: clamp_def)

lemma energy_update_bounds:
  "0 \<le> energy (EmotionEnergyModel_update m target smoothed) \<and>
   energy (EmotionEnergyModel_update m target smoothed) \<le> 10"
  by (cases smoothed) (simp add: EmotionEnergyModel_update_def Let_def clamp_def)

lemma energy_update_decay:
  "decay_per_frame (EmotionEnergyModel_update m target smoothed) = decay_per_frame m"
  by (cases smoothed) (simp add: EmotionEnergyModel_update_def Let_def)

lemma energy_run_bounds: "list_all (\<lambda>e. 0 \<le> e \<and> e \<le> 10) (energy_run m ins)"
proof (induction ins arbitrary: m)
  case Nil
  show ?case by simp
next
  case (Cons p ins)
  obtain target smoothed where p: "p = (target, smoothed)" by (cases p)
  show ?case
    using Cons.IH energy_update_bounds [of m target smoothed]
    by (simp add: p Let_def)
qed

lemma map_blob_count:
  "blob_count (fst (VisualMapping_map mp (v, a, d) en t g)) = 3 + py_int ((a + 1) / 2 * 10)"
  by (simp add: VisualMapping_map_def Let_def uniform_def)

lemma map_turbulence:
  "turbulence (fst (VisualMapping_map mp (v, a, d) en t g)) =
     base_turbulence mp + (a + 1) / 2 * arousal_gain mp + en * energy_gain mp"
  by (simp add: VisualMapping_map_def Let_def uniform_def)

lemma py_int_range: "0 \<le> x \<Longrightarrow> x \<le> 10 \<Longrightarrow> 0 \<le> py_int x \<and> py_int x \<le> 10"
  by (simp add: py_int_def floor_le_iff le_floor_iff)

text \<open>
  Claim C5. Whatever sequence of (target, smoothed) pairs is fed to
  \<open>EmotionEnergyModel.update\<close>, starting from any tracker, every energy the calls
  return lies between 0 and 10. One call on a VAD triple adds the mean of the three
  absolute differences to the accumulator, multiplies the sum by the decay factor and
  clamps the product to the interval from 0 to 10; the decay factor is never changed by a
  call and is 0.995 in the default tracker.
\<close>

theorem energy_bounded:
  "list_all (\<lambda>e. 0 \<le> e \<and> e \<le> 10) (energy_run m ins) \<and>
   energy (EmotionEnergyModel_update m [t0, t1, t2] (s0, s1, s2)) =
     clamp ((energy m + (\<bar>t0 - s0\<bar> + \<bar>t1 - s1\<bar> + \<bar>t2 - s2\<bar>) / 3) * decay_per_frame m) 0 10 \<and>
   decay_per_frame (EmotionEnergyModel_update m target smoothed) = decay_per_frame m \<and>
   decay_per_frame EmotionEnergyModel_default = 0.995"
  using energy_run_bounds [of m ins] energy_update_decay [of m target smoothed]
  by (simp add: EmotionEnergyModel_update_def EmotionEnergyModel_default_def Let_def add.assoc)

theorem energy_bounded_witness:
  "energy_run EmotionEnergyModel_default [([1, 1, 1], (0, 0, 0)), ([1, 1, 1], (1, 1, 1))]
     = [0.995, 0.990025]"
  using energy_bounded [of EmotionEnergyModel_default
      "[([1, 1, 1], (0, 0, 0)), ([1, 1, 1], (1, 1, 1))]" 1 1 1 0 0 0 "[]" "(0, 0, 0)"]
  by (simp add: EmotionEnergyModel_update_def EmotionEnergyModel_default_def Let_def clamp_def)

text \<open>
  Claim C10. With the default gains, for a VAD triple whose three axes lie between -1 and
  1 and an energy between 0 and 10, the parameters returned by \<open>VisualMapping.map\<close> have a
  blob count between 3 and 13 and a turbulence between 0.1 and 5.0, at any elapsed time
  and for any draw of the hue jitter.
\<close>

theorem map_default_ranges:
  assumes "-1 \<le> v" "v \<le> 1" "-1 \<le> a" "a \<le> 1" "-1 \<le> d" "d \<le> 1" "0 \<le> en" "en \<le> 10"
  shows "3 \<le> blob_count (fst (VisualMapping_map VisualMapping_default (v, a, d) en t g)) \<and>
         blob_count (fst (VisualMapping_map VisualMapping_default (v, a, d) en t g)) \<le> 13 \<and>
         0.1 \<le> turbulence (fst (VisualMapping_map VisualMapping_default (v, a, d) en t g)) \<and>
         turbulence (fst (VisualMapping_map VisualMapping_default (v, a, d) en t g)) \<le> 5.0"
proof -
  have na: "0 \<le> (a + 1) / 2 * 10" "(a + 1) / 2 * 10 \<le> 10" using assms by simp_all
  have bc: "0 \<le> py_int ((a + 1) / 2 * 10) \<and> py_int ((a + 1) / 2 * 10) \<le> 10"
    using py_int_range [OF na] .
  have tb: "0.1 \<le> 0.1 + (a + 1) / 2 * 0.9 + en * 0.4 \<and>
            0.1 + (a + 1) / 2 * 0.9 + en * 0.4 \<le> (5::real)"
    using assms by (simp add: field_simps)
  show ?thesis
    using bc tb by (simp add: map_blob_count map_turbulence VisualMapping_default_def)
qed

theorem map_default_ranges_witness:
  "blob_count (fst (VisualMapping_map VisualMapping_default (0, 1, 0) 10 0 (sconst 0))) = 13 \<and>
   3 \<le> blob_count (fst (VisualMapping_map VisualMapping_default (0, 1, 0) 10 0 (sconst 0))) \<and>
   blob_count (fst (VisualMapping_map VisualMapping_default (0, 1, 0) 10 0 (sconst 0))) \<le> 13 \<and>
   0.1 \<le> turbulence (fst (VisualMapping_map VisualMapping_default (0, 1, 0) 10 0 (sconst 0))) \<and>
   turbulence (fst (VisualMapping_map VisualMapping_default (0, 1, 0) 10 0 (sconst 0))) \<le> 5.0"
  using map_default_ranges [of 0 1 0 10 0 "sconst 0"]
  by (simp add: map_blob_count py_int_def)

subsection \<open>Step response of the filter\<close>











subsection \<open>Merge and split events\<close>








subsection \<open>The phases of a simulation step\<close>

lemma length_reset_blobs: "length (fst (reset_blobs w h params n g)) = n"
  by (induction n arbitrary: g) (simp_all add: Let_def split_beta)



lemma reconcile_count_fields:
  "width (fst (reconcile_count fs params g)) = width fs \<and>
   height (fst (reconcile_count fs params g)) = height fs \<and>
   damping_base (fst (reconcile_count fs params g)) = damping_base fs"
  by (simp add: reconcile_count_def FluidSimulation_reset_def Let_def split_beta)





subsection \<open>The split loop ends when the size bound is positive\<close>

lemma split_rank_exists:
  assumes "0 < thr"
  shows "\<exists>n. r \<le> thr * sqrt 2 ^ n"
proof -
  have "(1::real) < sqrt 2" by simp
  then obtain n where "r / thr < sqrt 2 ^ n" using real_arch_pow by blast
  then have "r < sqrt 2 ^ n * thr" using assms by (simp add: pos_divide_less_eq)
  then have "r \<le> thr * sqrt 2 ^ n" by (simp add: mult.commute)
  then show ?thesis ..
qed

lemma split_rank_bound:
  assumes "0 < thr"
  shows "r \<le> thr * sqrt 2 ^ split_rank thr r"
  unfolding split_rank_def using split_rank_exists [OF assms] by (rule LeastI_ex)

lemma split_rank_decreases:
  assumes thr: "0 < thr" and big: "thr < r"
  shows "split_rank thr (r / sqrt 2) < split_rank thr r"
proof -
  have b: "r \<le> thr * sqrt 2 ^ split_rank thr r" using split_rank_bound [OF thr] .
  have "split_rank thr r \<noteq> 0"
  proof
    assume "split_rank thr r = 0"
    then have "r \<le> thr" using b by simp
    then show False using big by simp
  qed
  then obtain m where m: "split_rank thr r = Suc m" by (cases "split_rank thr r") simp_all
  have "r \<le> (thr * sqrt 2 ^ m) * sqrt 2" using b m by (simp add: mult_ac)
  then have "r / sqrt 2 \<le> thr * sqrt 2 ^ m" by (simp add: pos_divide_le_eq)
  then have "split_rank thr (r / sqrt 2) \<le> m" unfolding split_rank_def by (rule Least_le)
  then show ?thesis using m by simp
qed

lemma split_measure_step:
  assumes "idx < length bs"
  shows "split_measure thr idx bs = Suc (split_rank thr (radius (bs ! idx))) + split_measure thr (Suc idx) bs"
  using assms by (simp add: split_measure_def Cons_nth_drop_Suc [symmetric])

lemma split_measure_new:
  assumes "idx < length bs"
  shows "split_measure thr (Suc idx) (bs[idx := p] @ [c]) =
           split_measure thr (Suc idx) bs + Suc (split_rank thr (radius c))"
  using assms by (simp add: split_measure_def drop_update_cancel)


lemma split_loop_returns:
  assumes thr: "0 < blob_size_mean params * 1.8" and w: "w \<noteq> 0"
  shows "\<exists>cs g'. split_loop w h na params idx bs g = Some (Inr (cs, g'))"
proof (induction "split_measure (blob_size_mean params * 1.8) idx bs" arbitrary: idx bs g rule: less_induct)
  case less
  let ?thr = "blob_size_mean params * 1.8"
  show ?case
  proof (cases "idx < length bs")
    case False
    then show ?thesis by (subst split_loop.simps) simp
  next
    case True
    have m: "split_measure ?thr idx bs =
               Suc (split_rank ?thr (radius (bs ! idx))) + split_measure ?thr (Suc idx) bs"
      using split_measure_step [OF True] .
    then have dec: "split_measure ?thr (Suc idx) bs < split_measure ?thr idx bs" by simp
    show ?thesis
    proof (cases "radius (bs ! idx) > ?thr")
      case False
      have "split_loop w h na params idx bs g = split_loop w h na params (idx + 1) bs g"
        using True False by (subst split_loop.simps) (simp add: Let_def)
      then show ?thesis using less [of "Suc idx" bs g] dec by simp
    next
      case big: True
      show ?thesis
      proof (cases "shd g < na")
        case False
        have "split_loop w h na params idx bs g = split_loop w h na params (idx + 1) bs (stl g)"
          using True big False by (subst split_loop.simps) (simp add: Let_def)
        then show ?thesis using less [of "Suc idx" bs "stl g"] dec by simp
      next
        case draw: True
        let ?r = "radius (bs ! idx) / sqrt 2"
        let ?p = "(bs ! idx)\<lparr>radius := ?r\<rparr>"
        let ?c = "\<lparr>position = (float_mod (fst (position (bs ! idx)) + 0.03) w,
                          clamp (snd (position (bs ! idx)) + 0.03) 0 h),
                  velocity = (- fst (velocity (bs ! idx)), snd (velocity (bs ! idx))),
                  radius = ?r, color = color (bs ! idx)\<rparr>"
        have eq: "split_loop w h na params idx bs g =
                    split_loop w h na params (idx + 1) (bs[idx := ?p] @ [?c]) (stl g)"
          using True big draw w by (subst split_loop.simps) (simp add: Let_def py_mod_def)
        have "split_measure ?thr (Suc idx) (bs[idx := ?p] @ [?c]) =
                split_measure ?thr (Suc idx) bs + Suc (split_rank ?thr (radius ?c))"
          using split_measure_new [OF True] .
        moreover have "split_rank ?thr ?r < split_rank ?thr (radius (bs ! idx))"
          using split_rank_decreases [OF thr] big by simp
        ultimately have "split_measure ?thr (Suc idx) (bs[idx := ?p] @ [?c]) < split_measure ?thr idx bs"
          using m by simp
        then show ?thesis using less [of "Suc idx" "bs[idx := ?p] @ [?c]" "stl g"] eq by simp
      qed
    qed
  qed
qed

subsection \<open>A whole simulation step\<close>


lemma step_unfold:
  "FluidSimulation_step fs params nd na dt t g =
     (case integrate_blobs (width fs) (height fs) params
             (damping_base fs - (1 - viscosity params) * 0.02) dt t
             (blobs (fst (reconcile_count fs params g))) of
        Inl e \<Rightarrow> Some (Inl e)
      | Inr bs4 \<Rightarrow>
          FluidSimulation_merge_and_split ((fst (reconcile_count fs params g))\<lparr>blobs := bs4\<rparr>)
            nd na params (snd (reconcile_count fs params g)))"
  using reconcile_count_fields [of fs params g]
  by (simp add: FluidSimulation_step_def Let_def split_beta)


subsection \<open>The blob count after a step\<close>

lemma step_zero_count:
  assumes "blob_count params = 0"
  shows "FluidSimulation_step fs params nd na dt t g = Some (Inr (fs\<lparr>blobs := []\<rparr>, g))"
proof -
  have rc: "reconcile_count fs params g = (fs\<lparr>blobs := []\<rparr>, g)"
    using assms
    by (cases "blobs fs = []")
       (simp_all add: reconcile_count_def FluidSimulation_reset_def Let_def grow_blobs.simps
          py_slice_to_def)
  show ?thesis
    unfolding step_unfold rc
    by (simp add: FluidSimulation_merge_and_split_def merge_outer.simps split_loop.simps)
qed














text \<open>
  Claim C4 at a negative count. From a list of two blobs and a target count of -1, the
  truncation \<open>self.blobs[: params.blob_count]\<close> keeps all but the last blob, so the call
  returns with one blob left, not with an empty set. (For a count of zero the set is empty
  after the call, see \<open>step_zero_count\<close>.)
\<close>

theorem step_negative_count_keeps_blobs:
  "FluidSimulation_step
     (FluidSimulation_default\<lparr>blobs :=
        [\<lparr>position = (0, 0), velocity = (0, 0), radius = 1/2, color = (1, 1, 1)\<rparr>,
         \<lparr>position = (1/2, 1/2), velocity = (0, 0), radius = 1/2, color = (1, 1, 1)\<rparr>]\<rparr>)
     (\<lparr>hsv_primary = (0, 0, 0), hsv_secondary = (0, 0, 0), rgb_primary = (0, 0, 0),
      blob_count = -1, blob_size_mean = 1, surface_tension = 0, viscosity = 1, buoyancy = 0,
      turbulence = 0, threshold = 1, gravity_x = 0\<rparr>) 0 0 0 0 (sconst 0)
   = Some (Inr (FluidSimulation_default\<lparr>blobs :=
        [\<lparr>position = (0, 0), velocity = (0, 0), radius = 1/2, color = (0, 0, 0)\<rparr>]\<rparr>, sconst 0))"
  by (simp add: step_unfold reconcile_count_def FluidSimulation_default_def Let_def
      grow_blobs.simps py_slice_to_def integrate_blob_def curl_noise_def py_mod_def float_mod_def
      clamp_def FluidSimulation_merge_and_split_def merge_outer.simps merge_inner.simps
      split_loop.simps)

subsection \<open>One tick of the engine\<close>










subsection \<open>Samples of the wrong arity\<close>





subsection \<open>What the split loop returns\<close>

lemma nth_split_step:
  assumes "k < length bs"
  shows "(bs[i := p] @ [c]) ! k = (if k = i then p else bs ! k)"
  using assms by (simp add: nth_append nth_list_update)

text \<open>
  The list the split loop returns, against the list it started from at index \<open>i\<close>: it is
  not shorter, the entries before \<open>i\<close> are untouched, and an entry from \<open>i\<close> on is either
  untouched or, if its radius was above the bound, the same blob with its radius divided
  by the square root of 2.
\<close>

lemma split_loop_result:
  assumes ret: "split_loop w h na params i bs g = Some (Inr (cs, g'))"
  shows "length bs \<le> length cs \<and>
         (\<forall>k < length bs.
            (k < i \<longrightarrow> cs ! k = bs ! k) \<and>
            (i \<le> k \<longrightarrow> cs ! k = bs ! k \<or>
               (blob_size_mean params * 1.8 < radius (bs ! k) \<and>
                cs ! k = (bs ! k)\<lparr>radius := radius (bs ! k) / sqrt 2\<rparr>)))"
proof -
  let ?Q = "\<lambda>(params::VisualParams) (i::nat) (bs::Blob list) (cs::Blob list).
      length bs \<le> length cs \<and>
      (\<forall>k < length bs.
         (k < i \<longrightarrow> cs ! k = bs ! k) \<and>
         (i \<le> k \<longrightarrow> cs ! k = bs ! k \<or>
            (blob_size_mean params * 1.8 < radius (bs ! k) \<and>
             cs ! k = (bs ! k)\<lparr>radius := radius (bs ! k) / sqrt 2\<rparr>)))"
  let ?P = "\<lambda>(w::real) (h::real) (na::real) (params::VisualParams) (i::nat) (bs::Blob list) (g::rng)
              (r::error + Blob list \<times> rng).
              \<forall>cs g'. r = Inr (cs, g') \<longrightarrow> ?Q params i bs cs"
  have "?P w h na params i bs g (Inr (cs, g'))"
  proof (rule split_loop.raw_induct [where P = ?P, OF _ ret], goal_cases)
    case (1 sl w h na params i bs g r)
    note IH = 1(1) and body = 1(2)
    show ?case
    proof (intro allI impI)
      fix cs g'
      assume r: "r = Inr (cs, g')"
      show "?Q params i bs cs"
      proof (cases "i < length bs")
        case False
        then have "cs = bs" using body r by simp
        then show ?thesis by simp
      next
        case True
        have same: "?Q params i bs cs" if q: "?Q params (Suc i) bs cs"
        proof -
          have "\<forall>k < length bs.
                  (k < i \<longrightarrow> cs ! k = bs ! k) \<and>
                  (i \<le> k \<longrightarrow> cs ! k = bs ! k \<or>
                     (blob_size_mean params * 1.8 < radius (bs ! k) \<and>
                      cs ! k = (bs ! k)\<lparr>radius := radius (bs ! k) / sqrt 2\<rparr>))"
          proof (intro allI impI)
            fix k assume k: "k < length bs"
            show "(k < i \<longrightarrow> cs ! k = bs ! k) \<and>
                  (i \<le> k \<longrightarrow> cs ! k = bs ! k \<or>
                     (blob_size_mean params * 1.8 < radius (bs ! k) \<and>
                      cs ! k = (bs ! k)\<lparr>radius := radius (bs ! k) / sqrt 2\<rparr>))"
            proof -
              have qk: "(k < Suc i \<longrightarrow> cs ! k = bs ! k) \<and>
                    (Suc i \<le> k \<longrightarrow> cs ! k = bs ! k \<or>
                       (blob_size_mean params * 1.8 < radius (bs ! k) \<and>
                        cs ! k = (bs ! k)\<lparr>radius := radius (bs ! k) / sqrt 2\<rparr>))"
                using q k by blast
              consider "k < Suc i" | "Suc i \<le> k" by linarith
              then show ?thesis
              proof cases
                case 1
                then have "cs ! k = bs ! k" using qk by simp
                then show ?thesis by simp
              next
                case 2
                then have "i \<le> k" "\<not> k < i" by simp_all
                then show ?thesis using qk 2 by simp
              qed
            qed
          qed
          then show ?thesis using q by simp
        qed
        show ?thesis
        proof (cases "radius (bs ! i) > blob_size_mean params * 1.8")
          case False
          then have "sl w h na params (i + 1) bs g = Some r"
            using True body by (simp add: Let_def)
          from IH [OF this] have "?Q params (Suc i) bs cs" using r by simp
          then show ?thesis by (rule same)
        next
          case big: True
          show ?thesis
          proof (cases "shd g < na")
            case False
            then have "sl w h na params (i + 1) bs (stl g) = Some r"
              using True big body by (simp add: Let_def)
            from IH [OF this] have "?Q params (Suc i) bs cs" using r by simp
            then show ?thesis by (rule same)
          next
            case draw: True
            have w: "w \<noteq> 0"
              using True big draw body r by (auto simp: Let_def py_mod_def split: if_splits)
            let ?p = "(bs ! i)\<lparr>radius := radius (bs ! i) / sqrt 2\<rparr>"
            let ?c = "\<lparr>position = (float_mod (fst (position (bs ! i)) + 0.03) w,
                              clamp (snd (position (bs ! i)) + 0.03) 0 h),
                  velocity = (- fst (velocity (bs ! i)), snd (velocity (bs ! i))),
                  radius = radius (bs ! i) / sqrt 2, color = color (bs ! i)\<rparr>"
            let ?new = "bs[i := ?p] @ [?c]"
            have "sl w h na params (i + 1) ?new (stl g) = Some r"
              using True big draw body w by (simp add: Let_def py_mod_def)
            from IH [OF this] have q: "?Q params (Suc i) ?new cs" using r by simp
            have len: "length bs \<le> length cs" using q by simp
            have "\<forall>k < length bs.
                    (k < i \<longrightarrow> cs ! k = bs ! k) \<and>
                    (i \<le> k \<longrightarrow> cs ! k = bs ! k \<or>
                       (blob_size_mean params * 1.8 < radius (bs ! k) \<and>
                        cs ! k = (bs ! k)\<lparr>radius := radius (bs ! k) / sqrt 2\<rparr>))"
            proof (intro allI impI)
              fix k assume k: "k < length bs"
              then have kn: "k < length ?new" by simp
              have nk: "?new ! k = (if k = i then ?p else bs ! k)"
                using nth_split_step [OF k] .
              have qk: "(k < Suc i \<longrightarrow> cs ! k = ?new ! k) \<and>
                    (Suc i \<le> k \<longrightarrow> cs ! k = ?new ! k \<or>
                       (blob_size_mean params * 1.8 < radius (?new ! k) \<and>
                        cs ! k = (?new ! k)\<lparr>radius := radius (?new ! k) / sqrt 2\<rparr>))"
                using q kn by blast
              consider "k < i" | "k = i" | "i < k" by linarith
              then show "(k < i \<longrightarrow> cs ! k = bs ! k) \<and>
                    (i \<le> k \<longrightarrow> cs ! k = bs ! k \<or>
                       (blob_size_mean params * 1.8 < radius (bs ! k) \<and>
                        cs ! k = (bs ! k)\<lparr>radius := radius (bs ! k) / sqrt 2\<rparr>))"
              proof cases
                case 1
                then show ?thesis using qk nk by simp
              next
                case 2
                then show ?thesis using qk nk big by simp
              next
                case 3
                then have "Suc i \<le> k" "k \<noteq> i" "\<not> k < i" by simp_all
                then show ?thesis using qk nk by simp
              qed
            qed
            then show ?thesis using len by simp
          qed
        qed
      qed
    qed
  qed
  then show ?thesis by simp
qed


lemma sqrt2_below_bound: "\<not> (1 * (18 / 10) < 2 / sqrt 2)"
proof -
  have "sqrt 2 \<le> 18 / 10" by (rule real_le_lsqrt) (simp_all add: power2_eq_square)
  moreover have "2 / sqrt 2 = sqrt 2" by (simp add: real_div_sqrt)
  ultimately show ?thesis by simp
qed

text \<open>
  Claim C8. Let the split loop stand at an index in range whose blob is larger than 1.8
  times the mean size, with a draw below \<open>na\<close> and a non-zero width: the loop splits that
  blob. It goes on, at the next index and with the next draw, on the list in which the
  parent has its radius divided by the square root of 2 and the child is appended: the
  child has the pre-split radius divided by the square root of 2, the parent's colour,
  the parent's velocity with the horizontal component negated, and the offset position.
  Then in the list the loop returns,
  \<^item> the list is longer than the one the loop stood at;
  \<^item> the blob at the index is the parent with its radius divided by the square root of
    2, everything else of it unchanged;
  \<^item> the blob at the old end of the list is the child, with the colour, the velocity and
    the position it was spawned with. The loop visits the child later, and only if the
    child is itself above the size bound can the child have been split in turn, which
    divides its radius once more; otherwise its radius is the one it was spawned with.
  The loop does return, without an error, whenever the mean size is positive.
\<close>

theorem split_event:
  assumes idx: "idx < length bs"
    and big: "radius (bs ! idx) > blob_size_mean params * 1.8"
    and draw: "shd g < na"
    and w: "w \<noteq> 0"
  shows "split_loop w h na params idx bs g =
           split_loop w h na params (idx + 1)
             (bs[idx := (bs ! idx)\<lparr>radius := radius (bs ! idx) / sqrt 2\<rparr>] @
              [\<lparr>position = (float_mod (fst (position (bs ! idx)) + 0.03) w,
                            clamp (snd (position (bs ! idx)) + 0.03) 0 h),
                velocity = (- fst (velocity (bs ! idx)), snd (velocity (bs ! idx))),
                radius = radius (bs ! idx) / sqrt 2, color = color (bs ! idx)\<rparr>])
             (stl g) \<and>
         (\<forall>cs g'. split_loop w h na params idx bs g = Some (Inr (cs, g')) \<longrightarrow>
            length bs < length cs \<and>
            cs ! idx = (bs ! idx)\<lparr>radius := radius (bs ! idx) / sqrt 2\<rparr> \<and>
            color (cs ! length bs) = color (bs ! idx) \<and>
            velocity (cs ! length bs) = (- fst (velocity (bs ! idx)), snd (velocity (bs ! idx))) \<and>
            position (cs ! length bs) =
              (float_mod (fst (position (bs ! idx)) + 0.03) w,
               clamp (snd (position (bs ! idx)) + 0.03) 0 h) \<and>
            (radius (cs ! length bs) = radius (bs ! idx) / sqrt 2 \<or>
             (blob_size_mean params * 1.8 < radius (bs ! idx) / sqrt 2 \<and>
              radius (cs ! length bs) = radius (bs ! idx) / sqrt 2 / sqrt 2))) \<and>
         (0 < blob_size_mean params \<longrightarrow>
            (\<exists>cs g'. split_loop w h na params idx bs g = Some (Inr (cs, g'))))"
proof (intro conjI allI impI)
  let ?p = "(bs ! idx)\<lparr>radius := radius (bs ! idx) / sqrt 2\<rparr>"
  let ?c = "\<lparr>position = (float_mod (fst (position (bs ! idx)) + 0.03) w,
                    clamp (snd (position (bs ! idx)) + 0.03) 0 h),
        velocity = (- fst (velocity (bs ! idx)), snd (velocity (bs ! idx))),
        radius = radius (bs ! idx) / sqrt 2, color = color (bs ! idx)\<rparr>"
  let ?new = "bs[idx := ?p] @ [?c]"
  show eq: "split_loop w h na params idx bs g = split_loop w h na params (idx + 1) ?new (stl g)"
    using idx big draw w by (subst split_loop.simps) (simp add: Let_def py_mod_def)
  {
    fix cs g'
    assume "split_loop w h na params idx bs g = Some (Inr (cs, g'))"
    then have ret: "split_loop w h na params (idx + 1) ?new (stl g) = Some (Inr (cs, g'))"
      using eq by simp
    note res = split_loop_result [OF ret]
    have len: "length ?new \<le> length cs" using res by simp
    then show "length bs < length cs" by simp
    have i1: "idx < length ?new" "idx < idx + 1" using idx by simp_all
    note at = res [THEN conjunct2, rule_format]
    have "cs ! idx = ?new ! idx"
      by (rule at [OF i1(1), THEN conjunct1, rule_format, OF i1(2)])
    then show "cs ! idx = ?p" using idx by (simp add: nth_append)
    have l1: "length bs < length ?new" "idx + 1 \<le> length bs" using idx by simp_all
    have nl: "?new ! length bs = ?c" by (simp add: nth_append)
    have alt: "cs ! length bs = ?c \<or>
          (blob_size_mean params * 1.8 < radius ?c \<and>
           cs ! length bs = ?c\<lparr>radius := radius ?c / sqrt 2\<rparr>)"
      using at [OF l1(1), THEN conjunct2, rule_format, OF l1(2)] by (simp only: nl)
    show "color (cs ! length bs) = color (bs ! idx)"
      using alt by (elim disjE conjE) simp_all
    show "velocity (cs ! length bs) = (- fst (velocity (bs ! idx)), snd (velocity (bs ! idx)))"
      using alt by (elim disjE conjE) simp_all
    show "position (cs ! length bs) =
            (float_mod (fst (position (bs ! idx)) + 0.03) w,
             clamp (snd (position (bs ! idx)) + 0.03) 0 h)"
      using alt by (elim disjE conjE) simp_all
    show "radius (cs ! length bs) = radius (bs ! idx) / sqrt 2 \<or>
          (blob_size_mean params * 1.8 < radius (bs ! idx) / sqrt 2 \<and>
           radius (cs ! length bs) = radius (bs ! idx) / sqrt 2 / sqrt 2)"
      using alt by (elim disjE conjE) simp_all
  }
  assume "0 < blob_size_mean params"
  then have "0 < blob_size_mean params * 1.8" by simp
  from split_loop_returns [OF this w]
  show "\<exists>cs g'. split_loop w h na params idx bs g = Some (Inr (cs, g'))" .
qed

theorem split_event_witness:
  "split_loop 1 1 1 \<lparr>hsv_primary = (0, 0, 0), hsv_secondary = (0, 0, 0), rgb_primary = (0, 0, 0),
         blob_count = 1, blob_size_mean = 1, surface_tension = 0, viscosity = 0, buoyancy = 0,
         turbulence = 0, threshold = 0, gravity_x = 0\<rparr> 0
       [\<lparr>position = (0, 0), velocity = (1, 2), radius = 2, color = (1, 0, 0)\<rparr>] (sconst 0) =
     Some (Inr ([\<lparr>position = (0, 0), velocity = (1, 2), radius = 2 / sqrt 2, color = (1, 0, 0)\<rparr>,
        \<lparr>position = (3 / 100, 3 / 100), velocity = (-1, 2), radius = 2 / sqrt 2, color = (1, 0, 0)\<rparr>],
       sconst 0))"
proof -
  let ?b = "\<lparr>position = (0, 0), velocity = (1, 2), radius = 2, color = (1, 0, 0)\<rparr> :: Blob"
  let ?p = "\<lparr>position = (0, 0), velocity = (1, 2), radius = 2 / sqrt 2, color = (1, 0, 0)\<rparr> :: Blob"
  let ?c = "\<lparr>position = (3 / 100, 3 / 100), velocity = (-1, 2), radius = 2 / sqrt 2, color = (1, 0, 0)\<rparr> :: Blob"
  let ?P = "\<lparr>hsv_primary = (0, 0, 0), hsv_secondary = (0, 0, 0), rgb_primary = (0, 0, 0),
         blob_count = 1, blob_size_mean = 1, surface_tension = 0, viscosity = 0, buoyancy = 0,
         turbulence = 0, threshold = 0, gravity_x = 0\<rparr>"
  have hyp: "0 < length [?b]" "radius ([?b] ! 0) > blob_size_mean ?P * 1.8"
    "shd (sconst (0::real)) < 1" "(1::real) \<noteq> 0" "0 < blob_size_mean ?P"
    by simp_all
  note ev = split_event [OF hyp(1-4), of 1]
  obtain cs g' where ret: "split_loop 1 1 1 ?P 0 [?b] (sconst 0) = Some (Inr (cs, g'))"
    using ev [THEN conjunct2, THEN conjunct2, rule_format, OF hyp(5)] by (elim exE)
  have s1: "split_loop 1 1 1 ?P 0 [?b] (sconst 0) = split_loop 1 1 1 ?P 1 [?p, ?c] (sconst 0)"
    by (subst split_loop.simps) (simp add: Let_def py_mod_def float_mod_def clamp_def)
  have s2: "split_loop 1 1 1 ?P 1 [?p, ?c] (sconst 0) = split_loop 1 1 1 ?P 2 [?p, ?c] (sconst 0)"
    using sqrt2_below_bound by (subst split_loop.simps) (simp add: Let_def numeral_2_eq_2)
  have s3: "split_loop 1 1 1 ?P 2 [?p, ?c] (sconst 0) = Some (Inr ([?p, ?c], sconst 0))"
    by (subst split_loop.simps) simp
  show ?thesis using ret s1 s2 s3 by simp
qed

subsection \<open>Holding the last sample\<close>










end
